theory Spec2Isabelle
  imports Main "HOL-Library.Char_ord" "HOL-Library.List_Lexorder" "HOL-Library.Product_Lexorder"
    "HOL-Library.Multiset"
begin

section \<open>Values and files\<close>

text \<open>
  A value of Go's \<^verbatim>\<open>interface{}\<close> as the YAML decoder produces it. A mapping is kept as
  the list of its entries; a Go map has each key once, so wherever a theorem needs that,
  it assumes the keys of the list to be distinct. A \<^verbatim>\<open>range\<close> over such a mapping visits
  the entries in the order of the list: Go leaves that order open, and the theorems hold
  for every list, hence for every order.
\<close>

datatype yaml =
    YNull
  | YBool bool
  | YInt int
  | YStr string
  | YList "yaml list"
  | YMap "(string \<times> yaml) list"

type_synonym vars = "(string \<times> yaml) list"

text \<open>
  What reading and decoding a file gives: \<^verbatim>\<open>os.ReadFile\<close> fails with a not-exist error,
  or with another error, or the YAML decoder fails, or the decoded content is there.
\<close>

datatype 'a read_result = NotExist | Unreadable | Malformed | Content 'a

datatype error =
    ReadError string
  | ParseError string
  | WriteError string
  | MarshalError
  | ServiceAlreadyDisabled string
  | ServiceNotDisabled string
  | StackMissingName string
  | StackNameMismatch string string
  | StackMissingCategory string
  | StackInvalidCategory string string
  | StackNoServices string
  | SelfDependency string
  | UnknownCategory string
  | DependencyNotEnabled string string
  | DependencyCycle "string list"
  | InvalidCategoryDependency string string int string string int "string list"
  | DuplicateService string

section \<open>Inventory and state (package inventory)\<close>

record State =
  DisabledServices :: "string list"































section \<open>Category registry (package categories)\<close>

record Category =
  CatName :: string
  DisplayName :: string
  Order :: int
  Color :: string
  Defaults :: vars

text \<open>
  The process-wide map \<^verbatim>\<open>discoveredCategories\<close> is state: every function that reads or
  writes it takes the registry and, where it writes, returns the new one.
\<close>

type_synonym registry = "string \<rightharpoonup> Category"

definition defaultMetadata :: "string \<rightharpoonup> Category" where
  "defaultMetadata = map_of
     [(''core'',
         \<lparr>CatName = ''core'', DisplayName = ''Core'', Order = 1, Color = ''blue'',
          Defaults = [(''restart'', YStr ''unless-stopped''),
                      (''security_opt'', YList [YStr ''no-new-privileges:true''])]\<rparr>),
      (''infrastructure'',
         \<lparr>CatName = ''infrastructure'', DisplayName = ''Infrastructure'', Order = 2,
          Color = ''cyan'',
          Defaults = [(''restart'', YStr ''unless-stopped''),
                      (''security_opt'', YList [YStr ''no-new-privileges:true''])]\<rparr>),
      (''monitoring'',
         \<lparr>CatName = ''monitoring'', DisplayName = ''Monitoring'', Order = 3, Color = ''green'',
          Defaults = [(''restart'', YStr ''unless-stopped'')]\<rparr>),
      (''automation'',
         \<lparr>CatName = ''automation'', DisplayName = ''Automation'', Order = 4, Color = ''yellow'',
          Defaults = [(''restart'', YStr ''unless-stopped'')]\<rparr>),
      (''media'',
         \<lparr>CatName = ''media'', DisplayName = ''Media'', Order = 5, Color = ''magenta'',
          Defaults = [(''restart'', YStr ''unless-stopped''),
                      (''environment'',
                         YMap [(''PUID'', YStr ''1000''), (''PGID'', YStr ''1000'')])]\<rparr>),
      (''tools'',
         \<lparr>CatName = ''tools'', DisplayName = ''Tools'', Order = 6, Color = ''white'',
          Defaults = []\<rparr>)]"

text \<open>\<^verbatim>\<open>strings.Split\<close> on one separator byte, and \<^verbatim>\<open>strings.Join\<close>.\<close>

fun split_on :: "char \<Rightarrow> string \<Rightarrow> string list" where
  "split_on sep [] = [[]]"
| "split_on sep (c # cs) =
     (if c = sep then [] # split_on sep cs
      else (case split_on sep cs of
              [] \<Rightarrow> [[c]]
            | w # ws \<Rightarrow> (c # w) # ws))"

fun join_with :: "string \<Rightarrow> string list \<Rightarrow> string" where
  "join_with sep [] = []"
| "join_with sep [w] = w"
| "join_with sep (w # ws) = w @ sep @ join_with sep ws"

text \<open>
  \<^verbatim>\<open>strings.ToUpper\<close> of a one-byte string: an ASCII lower-case letter is raised, another
  ASCII byte stays, and a byte from 128 on is no valid UTF-8 and comes back as the
  three bytes of U+FFFD.
\<close>

definition upper_first_byte :: "char \<Rightarrow> string" where
  "upper_first_byte c =
     (if (128::nat) \<le> of_char c then [char_of (239::nat), char_of (191::nat), char_of (189::nat)]
      else if (97::nat) \<le> of_char c \<and> of_char c \<le> (122::nat)
           then [char_of (of_char c - (32::nat))]
      else [c])"

fun title_word :: "string \<Rightarrow> string" where
  "title_word [] = []"
| "title_word (c # cs) = upper_first_byte c @ cs"

definition toDisplayName :: "string \<Rightarrow> string" where
  "toDisplayName name = join_with '' '' (map title_word (split_on (CHR ''-'') name))"

definition RegisterCategory :: "string \<Rightarrow> registry \<Rightarrow> registry" where
  "RegisterCategory name reg =
     (case reg name of
        Some _ \<Rightarrow> reg
      | None \<Rightarrow>
          (case defaultMetadata name of
             Some meta \<Rightarrow> reg(name \<mapsto> meta)
           | None \<Rightarrow>
               reg(name \<mapsto>
                 \<lparr>CatName = name, DisplayName = toDisplayName name, Order = 999,
                  Color = ''white'', Defaults = []\<rparr>)))"

definition Reset :: registry where
  "Reset = Map.empty"

definition Get :: "string \<Rightarrow> registry \<Rightarrow> error + Category" where
  "Get name reg =
     (case reg name of
        None \<Rightarrow> Inl (UnknownCategory name)
      | Some cat \<Rightarrow> Inr cat)"

definition GetOrDefault :: "string \<Rightarrow> registry \<Rightarrow> Category option \<times> registry" where
  "GetOrDefault name reg =
     (case Get name reg of
        Inr cat \<Rightarrow> (Some cat, reg)
      | Inl _ \<Rightarrow> (let reg' = RegisterCategory name reg in (reg' name, reg')))"

definition ValidCategoryName :: "string \<Rightarrow> bool" where
  "ValidCategoryName name = (name \<noteq> [])"

definition GetOrder :: "string \<Rightarrow> registry \<Rightarrow> int \<times> registry" where
  "GetOrder name reg =
     (case GetOrDefault name reg of
        (Some cat, reg') \<Rightarrow> (Order cat, reg')
      | (None, reg') \<Rightarrow> (999, reg'))"

text \<open>
  The registry is written by \<^verbatim>\<open>RegisterCategory\<close> and \<^verbatim>\<open>Reset\<close> only, so each entry is
  the one that registering its name in an empty registry stores.
\<close>

definition discovered :: "registry \<Rightarrow> bool" where
  "discovered reg = (\<forall>name cat. reg name = Some cat \<longrightarrow> RegisterCategory name Reset name = Some cat)"

section \<open>Stack manifests (package stacks)\<close>

text \<open>
  The \<^verbatim>\<open>persistence\<close> block of the manifest is read by no function and is left out.
\<close>

record Stack =
  Name :: string
  Category :: string
  Requires :: "string list"
  Services :: "string list"
  Vars :: vars

text \<open>
  The repository on disk, as far as the stacks package reads it: for each stack name,
  what reading and decoding \<^verbatim>\<open>stacks/<name>/stack.yaml\<close> gives.
\<close>

type_synonym repo = "string \<Rightarrow> Stack read_result"

definition LoadStack :: "repo \<Rightarrow> string \<Rightarrow> registry \<Rightarrow> (error + Stack) \<times> registry" where
  "LoadStack disk name reg =
     (case disk name of
        NotExist \<Rightarrow> (Inl (ReadError name), reg)
      | Unreadable \<Rightarrow> (Inl (ReadError name), reg)
      | Malformed \<Rightarrow> (Inl (ParseError name), reg)
      | Content stack \<Rightarrow>
          if Name stack = [] then (Inl (StackMissingName name), reg)
          else if Name stack \<noteq> name then (Inl (StackNameMismatch name (Name stack)), reg)
          else if Category stack = [] then (Inl (StackMissingCategory name), reg)
          else if \<not> ValidCategoryName (Category stack)
               then (Inl (StackInvalidCategory (Category stack) name), reg)
          else
            (let reg' = RegisterCategory (Category stack) reg;
                 stack' = (if Services stack = [] \<and> Vars stack \<noteq> []
                           then stack\<lparr>Services := map fst (Vars stack)\<rparr>
                           else stack)
             in if Services stack' = [] then (Inl (StackNoServices name), reg')
                else if name \<in> set (Requires stack') then (Inl (SelfDependency name), reg')
                else (Inr stack', reg')))"

definition GetStackVars :: "repo \<Rightarrow> string \<Rightarrow> registry \<Rightarrow> (error + vars) \<times> registry" where
  "GetStackVars disk name reg =
     (case LoadStack disk name reg of
        (Inl e, reg') \<Rightarrow> (Inl e, reg')
      | (Inr stack, reg') \<Rightarrow> (Inr (Vars stack), reg'))"

text \<open>
  \<^verbatim>\<open>for k, v := range src { merged[k] = v }\<close>: the map under construction is a partial
  function, the map ranged over is its list of entries.
\<close>

definition assign_all :: "vars \<Rightarrow> (string \<rightharpoonup> yaml) \<Rightarrow> (string \<rightharpoonup> yaml)" where
  "assign_all src merged = fold (\<lambda>(k, v) m. m(k \<mapsto> v)) src merged"

definition MergeVariables :: "vars \<Rightarrow> vars \<Rightarrow> vars \<Rightarrow> (string \<rightharpoonup> yaml)" where
  "MergeVariables stackVars inventoryVars secrets =
     assign_all secrets (assign_all inventoryVars (assign_all stackVars Map.empty))"

definition MergeWithCategoryDefaults ::
  "repo \<Rightarrow> string \<Rightarrow> vars \<Rightarrow> vars \<Rightarrow> vars \<Rightarrow> registry \<Rightarrow>
     (error + (string \<rightharpoonup> yaml)) \<times> registry" where
  "MergeWithCategoryDefaults disk stackName stackVars inventoryVars secrets reg =
     (case LoadStack disk stackName reg of
        (Inl e, reg') \<Rightarrow> (Inl e, reg')
      | (Inr stack, reg') \<Rightarrow>
          (case Get (Category stack) reg' of
             Inl e \<Rightarrow> (Inl e, reg')
           | Inr cat \<Rightarrow>
               (Inr (assign_all secrets
                      (assign_all inventoryVars
                        (assign_all stackVars
                          (assign_all (Defaults cat) Map.empty)))), reg')))"

definition EnabledStacksMap :: "string list \<Rightarrow> (string \<Rightarrow> bool)" where
  "EnabledStacksMap stacks = fold (\<lambda>s m. m(s := True)) stacks (\<lambda>_. False)"

text \<open>
  What a manifest loads to, for stating properties: the result of \<^verbatim>\<open>LoadStack\<close> does not
  depend on the registry it is given.
\<close>

definition manifest :: "repo \<Rightarrow> string \<Rightarrow> Stack option" where
  "manifest disk name =
     (case fst (LoadStack disk name Reset) of Inl _ \<Rightarrow> None | Inr stack \<Rightarrow> Some stack)"

definition category_order :: "string \<Rightarrow> int" where
  "category_order name = fst (GetOrder name Reset)"

section \<open>Deployment order (package stacks, ordering.go)\<close>

text \<open>
  The record of \<^verbatim>\<open>StackWithCategory\<close>; the field names carry a prefix, \<^verbatim>\<open>Name\<close>, \<^verbatim>\<open>Category\<close>
  and \<^verbatim>\<open>Order\<close> being fields of the records above.
\<close>

record StackWithCategory =
  InfoName :: string
  InfoCategory :: string
  InfoOrder :: int

text \<open>
  The first loop of \<^verbatim>\<open>SortByCategory\<close>: it stops at the first manifest that does not load.
\<close>

fun load_infos ::
  "repo \<Rightarrow> string list \<Rightarrow> StackWithCategory list \<Rightarrow> registry \<Rightarrow>
     (error + StackWithCategory list) \<times> registry" where
  "load_infos disk [] stacksInfo reg = (Inr stacksInfo, reg)"
| "load_infos disk (name # names) stacksInfo reg =
     (case LoadStack disk name reg of
        (Inl e, reg') \<Rightarrow> (Inl e, reg')
      | (Inr stack, reg') \<Rightarrow>
          (case GetOrder (Category stack) reg' of
             (ord, reg'') \<Rightarrow>
               load_infos disk names
                 (stacksInfo @
                    [\<lparr>InfoName = name, InfoCategory = Category stack, InfoOrder = ord\<rparr>])
                 reg''))"

text \<open>
  The comparison handed to \<^verbatim>\<open>sort.Slice\<close>. Go compares strings byte by byte, which is the
  lexicographic order on lists of characters.
\<close>

definition info_less :: "StackWithCategory \<Rightarrow> StackWithCategory \<Rightarrow> bool" where
  "info_less a b =
     (if InfoOrder a \<noteq> InfoOrder b then InfoOrder a < InfoOrder b
      else InfoName a < InfoName b)"

text \<open>
  \<^verbatim>\<open>sort.Slice\<close> belongs to Go's library. It returns its input reordered so that no element
  is less than one before it; insertion sort does that and stands for it here. The
  theorem on \<^verbatim>\<open>SortByCategory\<close> shows that only one reordering of the names is in order, so
  the choice of the sorting method does not show in the result.
\<close>

fun insert_by :: "('a \<Rightarrow> 'a \<Rightarrow> bool) \<Rightarrow> 'a \<Rightarrow> 'a list \<Rightarrow> 'a list" where
  "insert_by lt x [] = [x]"
| "insert_by lt x (y # ys) =
     (if lt x y then x # y # ys else y # insert_by lt x ys)"

definition sort_Slice :: "('a \<Rightarrow> 'a \<Rightarrow> bool) \<Rightarrow> 'a list \<Rightarrow> 'a list" where
  "sort_Slice lt xs = foldr (insert_by lt) xs []"

definition SortByCategory ::
  "repo \<Rightarrow> string list \<Rightarrow> registry \<Rightarrow> (error + string list) \<times> registry" where
  "SortByCategory disk stackNames reg =
     (case load_infos disk stackNames [] reg of
        (Inl e, reg') \<Rightarrow> (Inl e, reg')
      | (Inr stacksInfo, reg') \<Rightarrow> (Inr (map InfoName (sort_Slice info_less stacksInfo)), reg'))"

text \<open>
  The order of a stack's category, and the relation "in deployment order": smaller
  category order first, and by name within one order.
\<close>

definition stack_order :: "repo \<Rightarrow> string \<Rightarrow> int" where
  "stack_order disk name =
     (case manifest disk name of
        None \<Rightarrow> 999
      | Some stack \<Rightarrow> category_order (Category stack))"

definition in_deployment_order :: "repo \<Rightarrow> string \<Rightarrow> string \<Rightarrow> bool" where
  "in_deployment_order disk a b =
     (stack_order disk a < stack_order disk b \<or>
      (stack_order disk a = stack_order disk b \<and> a \<le> b))"

section \<open>Category hierarchy (package stacks, category_validation.go)\<close>







section \<open>An example repository\<close>

text \<open>
  Four stacks for the examples below: \<open>traefik\<close> in category \<open>core\<close>; \<open>grafana\<close> and
  \<open>loki\<close> in category \<open>monitoring\<close>, both requiring \<open>traefik\<close>; and \<open>dns\<close> in category
  \<open>core\<close>, requiring \<open>grafana\<close> and a stack \<open>ghost\<close> that has no manifest.
\<close>

definition example_stack :: "string \<Rightarrow> string \<Rightarrow> string list \<Rightarrow> Stack" where
  "example_stack name cat reqs =
     \<lparr>Name = name, Category = cat, Requires = reqs, Services = [name], Vars = []\<rparr>"

definition example_repo :: repo where
  "example_repo =
     (\<lambda>n. if n = ''traefik'' then Content (example_stack ''traefik'' ''core'' [])
          else if n = ''grafana'' then Content (example_stack ''grafana'' ''monitoring'' [''traefik''])
          else if n = ''loki'' then Content (example_stack ''loki'' ''monitoring'' [''traefik''])
          else if n = ''dns'' then Content (example_stack ''dns'' ''core'' [''grafana'', ''ghost''])
          else NotExist)"

section \<open>Properties of the state operations\<close>

lemma State_update_eq [simp]:
  "(st::State)\<lparr>DisabledServices := l\<rparr> = \<lparr>DisabledServices = l\<rparr>"
  by (cases st) simp























section \<open>Properties of the registry and of loading\<close>

lemma RegisterCategory_registered:
  "RegisterCategory name reg name \<noteq> None"
  by (auto simp: RegisterCategory_def split: option.splits)

lemma defaultMetadata_distinct:
  "defaultMetadata name = Some cat \<Longrightarrow> distinct (map fst (Defaults cat))"
  by (auto simp: defaultMetadata_def split: if_splits)

lemma registered_Defaults_distinct:
  assumes "discovered reg" "RegisterCategory name reg c = Some cat"
  shows "distinct (map fst (Defaults cat))"
proof -
  have r: "RegisterCategory c Reset c = Some cat"
  proof (cases "reg c")
    case (Some cat')
    with assms(2) have "reg c = Some cat"
      by (auto simp: RegisterCategory_def split: option.splits if_splits)
    with assms(1) show ?thesis by (simp add: discovered_def)
  next
    case None
    with assms(2) have "c = name"
      by (auto simp: RegisterCategory_def split: option.splits if_splits)
    with assms(2) None show ?thesis
      by (auto simp: RegisterCategory_def Reset_def split: option.splits)
  qed
  then show ?thesis
    by (auto simp: RegisterCategory_def Reset_def defaultMetadata_distinct split: option.splits)
qed

lemma LoadStack_registers:
  assumes "LoadStack disk name reg = (Inr stack, reg')"
  shows "reg' = RegisterCategory (Category stack) reg"
  using assms
  by (auto simp: LoadStack_def Let_def split: read_result.splits if_splits)

lemma RegisterCategory_discovered:
  assumes "discovered reg"
  shows "discovered (RegisterCategory c reg)"
  unfolding discovered_def
proof (intro allI impI)
  fix name cat
  assume a: "RegisterCategory c reg name = Some cat"
  show "RegisterCategory name Reset name = Some cat"
  proof (cases "reg name")
    case (Some cat')
    with a have "reg name = Some cat"
      by (auto simp: RegisterCategory_def split: option.splits if_splits)
    with assms show ?thesis by (simp add: discovered_def)
  next
    case None
    with a have "name = c"
      by (auto simp: RegisterCategory_def split: option.splits if_splits)
    with a None show ?thesis
      by (auto simp: RegisterCategory_def Reset_def split: option.splits)
  qed
qed

lemma GetOrder_discovered:
  assumes "discovered reg"
  shows "fst (GetOrder c reg) = category_order c \<and> discovered (snd (GetOrder c reg))"
proof (cases "reg c")
  case (Some cat)
  with assms have "RegisterCategory c Reset c = Some cat" by (simp add: discovered_def)
  then have "category_order c = Order cat"
    by (simp add: category_order_def GetOrder_def GetOrDefault_def Get_def Reset_def Let_def)
  with Some assms show ?thesis
    by (simp add: GetOrder_def GetOrDefault_def Get_def)
next
  case None
  have d: "discovered (RegisterCategory c reg)" by (rule RegisterCategory_discovered [OF assms])
  have e: "RegisterCategory c reg c = RegisterCategory c Reset c"
    using None by (auto simp: RegisterCategory_def Reset_def split: option.splits)
  show ?thesis using None d e
    by (auto simp: GetOrder_def GetOrDefault_def Get_def Let_def category_order_def Reset_def
             split: option.splits)
qed

lemma LoadStack_manifest:
  "fst (LoadStack disk name reg) = fst (LoadStack disk name Reset)"
  by (auto simp: LoadStack_def Let_def split: read_result.splits)

lemma LoadStack_loaded:
  assumes "manifest disk name = Some stack"
  shows "LoadStack disk name reg = (Inr stack, RegisterCategory (Category stack) reg)"
proof -
  from assms have "fst (LoadStack disk name Reset) = Inr stack"
    by (auto simp: manifest_def split: sum.splits)
  then have a: "fst (LoadStack disk name reg) = Inr stack"
    using LoadStack_manifest [of disk name reg] by simp
  then obtain reg' where b: "LoadStack disk name reg = (Inr stack, reg')"
    by (cases "LoadStack disk name reg") auto
  show ?thesis unfolding b using LoadStack_registers [OF b] by simp
qed

section \<open>Properties of the variable merge\<close>

lemma assign_all_apply:
  "distinct (map fst src) \<Longrightarrow>
   assign_all src m k = (case map_of src k of Some v \<Rightarrow> Some v | None \<Rightarrow> m k)"
  unfolding assign_all_def
proof (induction src arbitrary: m)
  case Nil
  then show ?case by simp
next
  case (Cons p src)
  obtain a b where p: "p = (a, b)" by (cases p)
  from Cons.prems p have d: "distinct (map fst src)" and n: "map_of src a = None"
    by (auto simp: map_of_eq_None_iff)
  show ?case using Cons.IH [OF d, of "m(a \<mapsto> b)"] n p
    by (auto split: option.splits)
qed

text \<open>
  C1. For a stack whose manifest loads, and three argument layers that are Go maps (each
  key once), \<^verbatim>\<open>MergeWithCategoryDefaults\<close> succeeds, and each top-level key of the result
  has the whole value of the first layer that holds it, in the order secrets, inventory
  variables, stack vars, defaults of the stack's category; a key that no layer holds is
  absent. The registry is one that \<^verbatim>\<open>RegisterCategory\<close> has built.
\<close>

theorem merge_with_category_defaults_precedence:
  assumes "LoadStack disk stackName reg = (Inr stack, reg')"
    and "discovered reg"
    and "distinct (map fst stackVars)"
    and "distinct (map fst inventoryVars)"
    and "distinct (map fst secrets)"
  shows "\<exists>merged cat.
           MergeWithCategoryDefaults disk stackName stackVars inventoryVars secrets reg =
             (Inr merged, reg') \<and>
           Get (Category stack) reg' = Inr cat \<and>
           (\<forall>k. merged k =
              (case map_of secrets k of
                 Some v \<Rightarrow> Some v
               | None \<Rightarrow>
                   (case map_of inventoryVars k of
                      Some v \<Rightarrow> Some v
                    | None \<Rightarrow>
                        (case map_of stackVars k of
                           Some v \<Rightarrow> Some v
                         | None \<Rightarrow> map_of (Defaults cat) k))))"
proof -
  have r: "reg' = RegisterCategory (Category stack) reg"
    by (rule LoadStack_registers [OF assms(1)])
  with RegisterCategory_registered [of "Category stack" reg]
  obtain cat where c: "reg' (Category stack) = Some cat" by auto
  have g: "Get (Category stack) reg' = Inr cat" by (simp add: Get_def c)
  have d: "distinct (map fst (Defaults cat))"
    using registered_Defaults_distinct [OF assms(2)] c r by simp
  have m: "MergeWithCategoryDefaults disk stackName stackVars inventoryVars secrets reg =
             (Inr (assign_all secrets
                    (assign_all inventoryVars
                      (assign_all stackVars
                        (assign_all (Defaults cat) Map.empty)))), reg')"
    by (simp add: MergeWithCategoryDefaults_def assms(1) g)
  show ?thesis
    unfolding m using g
    by (simp add: assign_all_apply assms(3,4,5) d split: option.splits)
qed

text \<open>
  The theorem at a stack of category \<open>monitoring\<close>, with a key in each layer.
\<close>

theorem merge_with_category_defaults_precedence_witness:
  "\<exists>merged.
     MergeWithCategoryDefaults
       (\<lambda>n. if n = ''grafana''
         then Content \<lparr>Name = ''grafana'', Category = ''monitoring'', Requires = [],
          Services = [''grafana''], Vars = [(''port'', YInt 3000)]\<rparr>
         else NotExist)
       ''grafana'' [(''port'', YInt 3000), (''image'', YStr ''grafana/grafana'')]
       [(''port'', YInt 8080), (''domain'', YStr ''home.lan'')] [(''domain'', YStr ''secret.lan'')] Reset =
       (Inr merged, RegisterCategory ''monitoring'' Reset) \<and>
     merged ''domain'' = Some (YStr ''secret.lan'') \<and>
     merged ''port'' = Some (YInt 8080) \<and>
     merged ''image'' = Some (YStr ''grafana/grafana'') \<and>
     merged ''restart'' = Some (YStr ''unless-stopped'') \<and>
     merged ''timezone'' = None"
proof -
  have a: "LoadStack
       (\<lambda>n. if n = ''grafana''
         then Content \<lparr>Name = ''grafana'', Category = ''monitoring'', Requires = [],
          Services = [''grafana''], Vars = [(''port'', YInt 3000)]\<rparr>
         else NotExist)
       ''grafana'' Reset =
       (Inr \<lparr>Name = ''grafana'', Category = ''monitoring'', Requires = [],
          Services = [''grafana''], Vars = [(''port'', YInt 3000)]\<rparr>,
        RegisterCategory ''monitoring'' Reset)"
    by (simp add: LoadStack_def ValidCategoryName_def Let_def)
  have b: "discovered Reset" by (simp add: discovered_def Reset_def)
  have c: "distinct (map fst [(''port'', YInt 3000), (''image'', YStr ''grafana/grafana'')])" by simp
  have d: "distinct (map fst [(''port'', YInt 8080), (''domain'', YStr ''home.lan'')])" by simp
  have e: "distinct (map fst [(''domain'', YStr ''secret.lan'')])" by simp
  from merge_with_category_defaults_precedence [OF a b c d e]
  obtain merged cat where m: "MergeWithCategoryDefaults
       (\<lambda>n. if n = ''grafana''
         then Content \<lparr>Name = ''grafana'', Category = ''monitoring'', Requires = [],
          Services = [''grafana''], Vars = [(''port'', YInt 3000)]\<rparr>
         else NotExist)
       ''grafana'' [(''port'', YInt 3000), (''image'', YStr ''grafana/grafana'')]
       [(''port'', YInt 8080), (''domain'', YStr ''home.lan'')] [(''domain'', YStr ''secret.lan'')] Reset =
       (Inr merged, RegisterCategory ''monitoring'' Reset)"
    and g: "Get (Category \<lparr>Name = ''grafana'', Category = ''monitoring'', Requires = [],
          Services = [''grafana''], Vars = [(''port'', YInt 3000)]\<rparr>) (RegisterCategory ''monitoring'' Reset) = Inr cat"
    and k: "\<forall>k. merged k =
              (case map_of [(''domain'', YStr ''secret.lan'')] k of
                 Some v \<Rightarrow> Some v
               | None \<Rightarrow>
                   (case map_of [(''port'', YInt 8080), (''domain'', YStr ''home.lan'')] k of
                      Some v \<Rightarrow> Some v
                    | None \<Rightarrow>
                        (case map_of [(''port'', YInt 3000), (''image'', YStr ''grafana/grafana'')] k of
                           Some v \<Rightarrow> Some v
                         | None \<Rightarrow> map_of (Defaults cat) k)))"
    by blast
  from g have cat: "Defaults cat = [(''restart'', YStr ''unless-stopped'')]"
    by (auto simp: Get_def RegisterCategory_def Reset_def defaultMetadata_def)
  have v: "merged ''domain'' = Some (YStr ''secret.lan'') \<and>
     merged ''port'' = Some (YInt 8080) \<and>
     merged ''image'' = Some (YStr ''grafana/grafana'') \<and>
     merged ''restart'' = Some (YStr ''unless-stopped'') \<and>
     merged ''timezone'' = None"
    by (simp add: k cat)
  from m v show ?thesis by (intro exI [of _ merged] conjI) simp_all
qed

section \<open>Properties of the deployment order\<close>

lemma load_infos_loaded:
  assumes "discovered reg" "\<forall>n\<in>set names. manifest disk n \<noteq> None"
  shows "\<exists>infos reg'. load_infos disk names acc reg = (Inr (acc @ infos), reg') \<and>
           map InfoName infos = names \<and>
           (\<forall>i\<in>set infos. InfoOrder i = stack_order disk (InfoName i)) \<and>
           discovered reg'"
  using assms
proof (induction names arbitrary: acc reg)
  case Nil
  then show ?case by simp
next
  case (Cons name names)
  from Cons.prems(2) obtain stack where m: "manifest disk name = Some stack" by auto
  let ?reg1 = "RegisterCategory (Category stack) reg"
  let ?info = "\<lparr>InfoName = name, InfoCategory = Category stack,
                 InfoOrder = fst (GetOrder (Category stack) ?reg1)\<rparr>"
  let ?reg2 = "snd (GetOrder (Category stack) ?reg1)"
  have d1: "discovered ?reg1" by (rule RegisterCategory_discovered [OF Cons.prems(1)])
  from GetOrder_discovered [OF d1, of "Category stack"]
  have o: "fst (GetOrder (Category stack) ?reg1) = category_order (Category stack)"
    and d2: "discovered ?reg2" by simp_all
  have rest: "\<forall>n\<in>set names. manifest disk n \<noteq> None" using Cons.prems(2) by simp
  from Cons.IH [OF d2 rest, of "acc @ [?info]"]
  obtain infos reg' where
    i: "load_infos disk names (acc @ [?info]) ?reg2 = (Inr ((acc @ [?info]) @ infos), reg')"
       "map InfoName infos = names"
       "\<forall>i\<in>set infos. InfoOrder i = stack_order disk (InfoName i)"
       "discovered reg'"
    by blast
  have s: "load_infos disk (name # names) acc reg = (Inr (acc @ (?info # infos)), reg')"
    using i(1) by (simp add: LoadStack_loaded [OF m] case_prod_beta)
  have io: "InfoOrder ?info = stack_order disk (InfoName ?info)"
    by (simp add: o stack_order_def m)
  show ?case
    using s i(2,3,4) io by (intro exI [of _ "?info # infos"] exI [of _ reg']) simp
qed

lemma insert_by_sorted:
  fixes k :: "'a \<Rightarrow> 'b::linorder"
  assumes "\<And>a b. lt a b \<longleftrightarrow> k a < k b" "sorted (map k ys)"
  shows "sorted (map k (insert_by lt x ys)) \<and> mset (insert_by lt x ys) = add_mset x (mset ys)"
  using assms(2)
proof (induction ys)
  case Nil
  then show ?case by simp
next
  case (Cons y ys)
  then have ih: "sorted (map k (insert_by lt x ys))"
    "mset (insert_by lt x ys) = add_mset x (mset ys)" by simp_all
  from ih(2) have st: "set (insert_by lt x ys) = insert x (set ys)"
    by (metis set_mset_add_mset_insert set_mset_mset)
  show ?case
  proof (cases "lt x y")
    case True
    then have "k x < k y" by (simp add: assms(1))
    with Cons.prems show ?thesis using True by (auto simp: less_imp_le)
  next
    case False
    then have "k y \<le> k x" by (simp add: assms(1))
    with Cons.prems ih st show ?thesis using False by auto
  qed
qed

lemma sort_Slice_sorted:
  fixes k :: "'a \<Rightarrow> 'b::linorder"
  assumes "\<And>a b. lt a b \<longleftrightarrow> k a < k b"
  shows "sorted (map k (sort_Slice lt xs)) \<and> mset (sort_Slice lt xs) = mset xs"
  unfolding sort_Slice_def
proof (induction xs)
  case Nil
  then show ?case by simp
next
  case (Cons x xs)
  then have ih: "sorted (map k (foldr (insert_by lt) xs []))"
    and im: "mset (foldr (insert_by lt) xs []) = mset xs" by simp_all
  from insert_by_sorted [OF assms ih, of x] im show ?case by simp
qed

lemma info_less_key:
  "info_less a b \<longleftrightarrow> (InfoOrder a, InfoName a) < (InfoOrder b, InfoName b)"
  by (auto simp: info_less_def)

lemma in_deployment_order_key:
  "in_deployment_order disk a b \<longleftrightarrow> (stack_order disk a, a) \<le> (stack_order disk b, b)"
  by (auto simp: in_deployment_order_def)

lemma sorted_wrt_in_deployment_order:
  "sorted_wrt (in_deployment_order disk) xs = sorted (map (\<lambda>n. (stack_order disk n, n)) xs)"
  by (simp add: sorted_map in_deployment_order_key [abs_def])

lemma deployment_order_unique:
  assumes "mset ys = mset xs" "sorted_wrt (in_deployment_order disk) ys"
    "sorted_wrt (in_deployment_order disk) xs"
  shows "ys = xs"
proof -
  let ?k = "\<lambda>n. (stack_order disk n, n)"
  have m: "mset (map ?k ys) = mset (map ?k xs)" using assms(1) by simp
  have "sort (map ?k xs) = map ?k ys"
    using assms(2) m by (intro properties_for_sort) (simp_all add: sorted_wrt_in_deployment_order)
  moreover have "sort (map ?k xs) = map ?k xs"
    using assms(3) by (intro properties_for_sort) (simp_all add: sorted_wrt_in_deployment_order)
  ultimately have "map ?k ys = map ?k xs" by simp
  then have "map snd (map ?k ys) = map snd (map ?k xs)" by simp
  then show ?thesis by (simp add: comp_def)
qed

lemma SortByCategory_sorted:
  assumes "discovered reg" "\<forall>n\<in>set names. manifest disk n \<noteq> None"
  shows "\<exists>out. fst (SortByCategory disk names reg) = Inr out \<and> mset out = mset names \<and>
           sorted_wrt (in_deployment_order disk) out"
proof -
  from load_infos_loaded [OF assms, of "[]"]
  obtain infos reg' where
    i: "load_infos disk names [] reg = (Inr infos, reg')"
       "map InfoName infos = names"
       "\<forall>i\<in>set infos. InfoOrder i = stack_order disk (InfoName i)"
    by auto
  let ?s = "sort_Slice info_less infos"
  let ?k = "\<lambda>i. (InfoOrder i, InfoName i)"
  from sort_Slice_sorted [of info_less ?k infos]
  have s: "sorted (map ?k ?s)" and ms: "mset ?s = mset infos"
    by (simp_all add: info_less_key)
  from ms have st: "set ?s = set infos" by (metis set_mset_mset)
  have e: "map ?k ?s = map (\<lambda>n. (stack_order disk n, n)) (map InfoName ?s)"
    using i(3) st by simp
  have a: "sorted_wrt (in_deployment_order disk) (map InfoName ?s)"
    using s unfolding e by (simp add: sorted_wrt_in_deployment_order)
  have "mset (map InfoName ?s) = mset (map InfoName infos)" using ms by simp
  then have b: "mset (map InfoName ?s) = mset names" by (simp add: i(2))
  have c: "fst (SortByCategory disk names reg) = Inr (map InfoName ?s)"
    by (simp add: SortByCategory_def i(1))
  from a b c show ?thesis by blast
qed

text \<open>
  C7. For enabled stacks whose manifests load, \<^verbatim>\<open>SortByCategory\<close> returns the names
  reordered (the same names, each as often as given) so that each name is in deployment
  order with every later one: smaller category order first, smaller name first within
  one order. That reordering is the only one in deployment order, so no other sorting
  method would give another result, and every permutation of the input gives the same
  output, whatever the registry holds at the call.
\<close>

theorem sort_by_category_total_order:
  assumes "discovered reg"
    and "\<forall>n\<in>set stackNames. manifest disk n \<noteq> None"
  shows "\<exists>sorted_names.
           fst (SortByCategory disk stackNames reg) = Inr sorted_names \<and>
           mset sorted_names = mset stackNames \<and>
           sorted_wrt (in_deployment_order disk) sorted_names \<and>
           (\<forall>ys. mset ys = mset stackNames \<and> sorted_wrt (in_deployment_order disk) ys
                 \<longrightarrow> ys = sorted_names) \<and>
           (\<forall>perm reg2. mset perm = mset stackNames \<and> discovered reg2
                 \<longrightarrow> fst (SortByCategory disk perm reg2) = Inr sorted_names)"
proof -
  from SortByCategory_sorted [OF assms]
  obtain out where o: "fst (SortByCategory disk stackNames reg) = Inr out"
    "mset out = mset stackNames" "sorted_wrt (in_deployment_order disk) out"
    by blast
  have u: "ys = out"
    if "mset ys = mset stackNames \<and> sorted_wrt (in_deployment_order disk) ys" for ys
    using that o(2,3) by (intro deployment_order_unique [of ys out disk]) simp_all
  have p: "fst (SortByCategory disk perm reg2) = Inr out"
    if h: "mset perm = mset stackNames \<and> discovered reg2" for perm reg2
  proof -
    from h have "set perm = set stackNames" by (metis set_mset_mset)
    with assms(2) have l: "\<forall>n\<in>set perm. manifest disk n \<noteq> None" by simp
    from h have d: "discovered reg2" by simp
    from SortByCategory_sorted [OF d l]
    obtain out' where o': "fst (SortByCategory disk perm reg2) = Inr out'"
      "mset out' = mset perm" "sorted_wrt (in_deployment_order disk) out'"
      by blast
    have "out' = out" using o'(2,3) h by (intro u) simp
    with o'(1) show ?thesis by simp
  qed
  from o u p show ?thesis by blast
qed

lemma example_repo_manifest:
  "manifest example_repo ''traefik'' = Some (example_stack ''traefik'' ''core'' [])"
  "manifest example_repo ''grafana'' = Some (example_stack ''grafana'' ''monitoring'' [''traefik''])"
  "manifest example_repo ''loki'' = Some (example_stack ''loki'' ''monitoring'' [''traefik''])"
  "manifest example_repo ''dns'' = Some (example_stack ''dns'' ''core'' [''grafana'', ''ghost''])"
  "manifest example_repo ''ghost'' = None"
  by (simp_all add: manifest_def LoadStack_def example_repo_def example_stack_def
                    ValidCategoryName_def Let_def)

lemma category_order_examples:
  "category_order ''core'' = 1"
  "category_order ''monitoring'' = 3"
  by (simp_all add: category_order_def GetOrder_def GetOrDefault_def Get_def
                    RegisterCategory_def Reset_def defaultMetadata_def Let_def)

lemma example_repo_stack_order:
  "stack_order example_repo ''traefik'' = 1"
  "stack_order example_repo ''grafana'' = 3"
  "stack_order example_repo ''loki'' = 3"
  "stack_order example_repo ''dns'' = 1"
  by (simp_all add: stack_order_def example_repo_manifest example_stack_def
                    category_order_examples)

text \<open>
  The theorem at the example repository: two permutations of the three names, one result.
\<close>

theorem sort_by_category_total_order_witness:
  "fst (SortByCategory example_repo [''loki'', ''traefik'', ''grafana''] Reset) =
     Inr [''traefik'', ''grafana'', ''loki''] \<and>
   fst (SortByCategory example_repo [''grafana'', ''loki'', ''traefik''] Reset) =
     Inr [''traefik'', ''grafana'', ''loki'']"
proof -
  have a: "discovered Reset" by (simp add: discovered_def Reset_def)
  have b: "\<forall>n\<in>set [''loki'', ''traefik'', ''grafana'']. manifest example_repo n \<noteq> None"
    by (simp add: example_repo_manifest)
  from sort_by_category_total_order [OF a b]
  obtain out where
    o: "fst (SortByCategory example_repo [''loki'', ''traefik'', ''grafana''] Reset) = Inr out"
    and u: "\<forall>ys. mset ys = mset [''loki'', ''traefik'', ''grafana''] \<and>
                 sorted_wrt (in_deployment_order example_repo) ys \<longrightarrow> ys = out"
    and p: "\<forall>perm reg2. mset perm = mset [''loki'', ''traefik'', ''grafana''] \<and> discovered reg2
                 \<longrightarrow> fst (SortByCategory example_repo perm reg2) = Inr out"
    by blast
  have s: "mset [''traefik'', ''grafana'', ''loki''] = mset [''loki'', ''traefik'', ''grafana''] \<and>
           sorted_wrt (in_deployment_order example_repo) [''traefik'', ''grafana'', ''loki'']"
    by (simp add: in_deployment_order_def example_repo_stack_order)
  from u s have e: "[''traefik'', ''grafana'', ''loki''] = out" by blast
  have m: "mset [''grafana'', ''loki'', ''traefik''] = mset [''loki'', ''traefik'', ''grafana''] \<and>
           discovered Reset"
    using a by simp
  from p m have "fst (SortByCategory example_repo [''grafana'', ''loki'', ''traefik''] Reset) = Inr out"
    by blast
  with o e show ?thesis by simp
qed

section \<open>Properties of the category hierarchy check\<close>












end
